theory Spec2Isabelle
  imports Complex_Main "HOL-Library.AList"
begin

section \<open>JavaScript values\<close>

text \<open>
  The proxy (\<^verbatim>\<open>server.js\<close>) works on values produced by \<^verbatim>\<open>JSON.parse\<close>: the request
  body (what \<^verbatim>\<open>express.json()\<close> parsed into \<^verbatim>\<open>req.body\<close>), the events of the backend
  stream and the backend's non-streaming response.
  A parsed object is an association list in key order, looked up with \<open>map_of\<close>; a
  number is the rational value of the parsed double. A property that is missing reads
  as \<^verbatim>\<open>undefined\<close>, which is \<open>None\<close> of \<open>json option\<close>.
\<close>

datatype json =
    JNull
  | JBool bool
  | JNum rat
  | JStr string
  | JArr "json list"
  | JObj "(string \<times> json) list"

text \<open>
  Built-ins of the JavaScript runtime that the program calls and that are not part of
  the repository: \<^verbatim>\<open>JSON.parse\<close> (\<open>None\<close> when it throws a SyntaxError), the conversion
  of a number to its decimal text, and \<^verbatim>\<open>Buffer.prototype.toString\<close>, which decodes the
  bytes of one chunk of the backend stream on their own (a character cut by the end of
  the chunk decodes to replacement characters). Every theorem holds for all of them.
\<close>

type_synonym bytes = "nat list"

record js_runtime =
  JSON_parse :: "string \<Rightarrow> json option"
  Number_toString :: "rat \<Rightarrow> string"
  Buffer_toString :: "bytes \<Rightarrow> string"

text \<open>
  An exception thrown inside a \<^verbatim>\<open>try\<close> block: reading a property of \<^verbatim>\<open>null\<close> or
  \<^verbatim>\<open>undefined\<close>, or calling a method the value does not have.
\<close>

datatype error = TypeError

text \<open>Truthiness (\<^verbatim>\<open>if (v)\<close>, \<^verbatim>\<open>!v\<close>, \<^verbatim>\<open>a || b\<close>, \<^verbatim>\<open>a && b\<close>).\<close>

fun truthy :: "json \<Rightarrow> bool" where
  "truthy JNull = False"
| "truthy (JBool b) = b"
| "truthy (JNum q) = (q \<noteq> 0)"
| "truthy (JStr s) = (s \<noteq> [])"
| "truthy (JArr xs) = True"
| "truthy (JObj kvs) = True"

fun truthy_opt :: "json option \<Rightarrow> bool" where
  "truthy_opt None = False"
| "truthy_opt (Some v) = truthy v"

text \<open>\<^verbatim>\<open>a || b\<close> where \<open>b\<close> is a defined value.\<close>

fun js_or :: "json option \<Rightarrow> json \<Rightarrow> json" where
  "js_or None d = d"
| "js_or (Some v) d = (if truthy v then v else d)"

text \<open>
  \<^verbatim>\<open>v.key\<close> for the keys the program reads (\<^verbatim>\<open>messages\<close>, \<^verbatim>\<open>choices\<close>, \<^verbatim>\<open>delta\<close>,
  \<^verbatim>\<open>content\<close>, ...), on a value that is neither \<^verbatim>\<open>null\<close> nor \<^verbatim>\<open>undefined\<close>. None of
  these keys is a member of a built-in prototype, so only an object has them.
\<close>

fun get_field :: "json \<Rightarrow> string \<Rightarrow> json option" where
  "get_field (JObj kvs) k = map_of kvs k"
| "get_field v k = None"

text \<open>
  \<^verbatim>\<open>v?.key\<close>: \<^verbatim>\<open>undefined\<close> when the receiver is \<^verbatim>\<open>null\<close> or \<^verbatim>\<open>undefined\<close>.
\<close>

fun opt_field :: "json option \<Rightarrow> string \<Rightarrow> json option" where
  "opt_field None k = None"
| "opt_field (Some v) k = get_field v k"

text \<open>
  \<^verbatim>\<open>v?.[0]\<close>: the first element of an array, the property \<^verbatim>\<open>"0"\<close> of an object, the
  first character of a string.
\<close>

fun opt_index0 :: "json option \<Rightarrow> json option" where
  "opt_index0 (Some (JArr (x # xs))) = Some x"
| "opt_index0 (Some (JObj kvs)) = map_of kvs ''0''"
| "opt_index0 (Some (JStr (c # cs))) = Some (JStr [c])"
| "opt_index0 v = None"

text \<open>
  Conversion to a string, as string concatenation, template literals and property keys
  do it (ToString of ToPrimitive). An array joins its elements with commas, \<^verbatim>\<open>null\<close>
  elements as the empty string. An object is converted by its \<^verbatim>\<open>toString\<close> method: the
  inherited one gives \<^verbatim>\<open>[object Object]\<close>, but a parsed object with a key \<^verbatim>\<open>toString\<close> of
  its own has a value there that cannot be called, \<^verbatim>\<open>valueOf\<close> (its own, not callable, or
  the inherited one, which returns the object) gives no primitive either, and the
  conversion throws a TypeError.
\<close>

fun to_str :: "(rat \<Rightarrow> string) \<Rightarrow> json \<Rightarrow> error + string"
  and join_elements :: "(rat \<Rightarrow> string) \<Rightarrow> json list \<Rightarrow> error + string" where
  "to_str ns JNull = Inr ''null''"
| "to_str ns (JBool b) = Inr (if b then ''true'' else ''false'')"
| "to_str ns (JNum q) = Inr (ns q)"
| "to_str ns (JStr s) = Inr s"
| "to_str ns (JArr xs) = join_elements ns xs"
| "to_str ns (JObj kvs) =
     (if map_of kvs ''toString'' = None then Inr ''[object Object]'' else Inl TypeError)"
| "join_elements ns [] = Inr []"
| "join_elements ns (x # xs) =
     (case (if x = JNull then Inr [] else to_str ns x) of
        Inl e \<Rightarrow> Inl e
      | Inr s \<Rightarrow>
          if xs = [] then Inr s
          else (case join_elements ns xs of
                  Inl e \<Rightarrow> Inl e
                | Inr t \<Rightarrow> Inr (s @ '','' @ t)))"

text \<open>String methods: \<^verbatim>\<open>startsWith\<close>, \<^verbatim>\<open>includes\<close>, \<^verbatim>\<open>toLowerCase\<close>.\<close>

fun startsWith :: "string \<Rightarrow> string \<Rightarrow> bool" where
  "startsWith s [] = True"
| "startsWith [] (p # ps) = False"
| "startsWith (c # cs) (p # ps) = (c = p \<and> startsWith cs ps)"

fun str_includes :: "string \<Rightarrow> string \<Rightarrow> bool" where
  "str_includes [] needle = (needle = [])"
| "str_includes (c # cs) needle = (startsWith (c # cs) needle \<or> str_includes cs needle)"

text \<open>
  Characters are 8-bit (Latin-1 code points); \<^verbatim>\<open>toLowerCase\<close> maps A-Z and the
  accented capitals 192-222 (but the multiplication sign, 215) 32 places up.
\<close>

definition lower_char :: "char \<Rightarrow> char" where
  "lower_char c =
     (let n = (of_char c :: nat)
      in if (65 \<le> n \<and> n \<le> 90) \<or> (192 \<le> n \<and> n \<le> 222 \<and> n \<noteq> 215)
         then char_of (n + 32) else c)"

definition toLowerCase :: "string \<Rightarrow> string" where
  "toLowerCase s = map lower_char s"

section \<open>Configuration and the model table\<close>

record config =
  SHOW_REASONING :: bool
  ENABLE_THINKING_MODE :: bool
  MAX_CACHE_SIZE :: nat
  FORCE_STREAMING :: bool

definition server_config :: config where
  "server_config =
     \<lparr>SHOW_REASONING = False, ENABLE_THINKING_MODE = False,
      MAX_CACHE_SIZE = 100, FORCE_STREAMING = True\<rparr>"

definition MODEL_MAPPING :: "(string \<times> string) list" where
  "MODEL_MAPPING =
     [(''gpt-3.5-turbo'', ''nvidia/llama-3.1-nemotron-ultra-253b-v1''),
      (''gpt-4'', ''qwen/qwen3-coder-480b-a35b-instruct''),
      (''gpt-4-turbo'', ''moonshotai/kimi-k2-instruct-0905''),
      (''gpt-4o'', ''deepseek-ai/deepseek-v3.1''),
      (''claude-3-opus'', ''openai/gpt-oss-120b''),
      (''claude-3-sonnet'', ''openai/gpt-oss-20b''),
      (''gemini-pro'', ''qwen/qwen3-next-80b-a3b-thinking'')]"

text \<open>
  \<^verbatim>\<open>MODEL_MAPPING\<close> is an object literal, so \<^verbatim>\<open>MODEL_MAPPING[key]\<close> also finds the
  members it inherits from \<^verbatim>\<open>Object.prototype\<close>; each of them is a function or an
  object, hence truthy. A value of the program is a JSON value or such a member.
\<close>

definition Object_prototype_keys :: "string list" where
  "Object_prototype_keys =
     [''constructor'', ''__defineGetter__'', ''__defineSetter__'', ''hasOwnProperty'',
      ''__lookupGetter__'', ''__lookupSetter__'', ''isPrototypeOf'',
      ''propertyIsEnumerable'', ''toString'', ''valueOf'', ''__proto__'',
      ''toLocaleString'']"

datatype js_value = Val json | Inherited string

definition MODEL_MAPPING_get :: "string \<Rightarrow> js_value option" where
  "MODEL_MAPPING_get key =
     (case map_of MODEL_MAPPING key of
        Some v \<Rightarrow> Some (Val (JStr v))
      | None \<Rightarrow> if key \<in> set Object_prototype_keys then Some (Inherited key) else None)"

section \<open>Model selection: \<^verbatim>\<open>getOptimalModel\<close>\<close>

text \<open>
  \<^verbatim>\<open>validatedModels\<close> is a \<^verbatim>\<open>Map\<close>: its entries in insertion order. \<^verbatim>\<open>set\<close> on a
  new key appends, \<^verbatim>\<open>keys().next().value\<close> is the first key (\<^verbatim>\<open>undefined\<close> on an empty
  map, which \<^verbatim>\<open>delete\<close> ignores).
\<close>

type_synonym model_cache = "(string \<times> string) list"

text \<open>The heuristic chain on the lower-cased name (lines 81 to 92).\<close>

definition fallbackModel :: "string \<Rightarrow> string" where
  "fallbackModel requestedModel =
     (let modelLower = toLowerCase requestedModel
      in if str_includes modelLower ''deepseek'' then ''deepseek-ai/deepseek-v3.1''
         else if str_includes modelLower ''gpt-4'' \<or> str_includes modelLower ''claude-opus''
                 \<or> str_includes modelLower ''405b''
           then ''meta/llama-3.1-405b-instruct''
         else if str_includes modelLower ''claude'' \<or> str_includes modelLower ''gemini''
                 \<or> str_includes modelLower ''70b''
           then ''meta/llama-3.1-70b-instruct''
         else ''deepseek-ai/deepseek-v3.1'')"

definition evict_first :: "model_cache \<Rightarrow> model_cache" where
  "evict_first validatedModels =
     (case validatedModels of
        [] \<Rightarrow> []
      | (firstKey, v) # rest \<Rightarrow> AList.delete firstKey validatedModels)"

text \<open>
  The argument is whatever the request carried as \<^verbatim>\<open>model\<close>. A value that is not a
  string is converted to a property key for the table lookup (which may throw), is
  never a key of the map (whose keys are strings), and has no \<^verbatim>\<open>toLowerCase\<close>: the call
  throws.
\<close>

definition getOptimalModel ::
  "js_runtime \<Rightarrow> config \<Rightarrow> model_cache \<Rightarrow> json \<Rightarrow> (error + js_value) \<times> model_cache" where
  "getOptimalModel rt cfg validatedModels requestedModel =
     (case to_str (Number_toString rt) requestedModel of
        Inl e \<Rightarrow> (Inl e, validatedModels)
      | Inr key \<Rightarrow>
          (case MODEL_MAPPING_get key of
             Some v \<Rightarrow> (Inr v, validatedModels)
           | None \<Rightarrow>
               (case requestedModel of
                  JStr name \<Rightarrow>
                    (case map_of validatedModels name of
                       Some v \<Rightarrow> (Inr (Val (JStr v)), validatedModels)
                     | None \<Rightarrow>
                         (let fb = fallbackModel name;
                              vm = (if MAX_CACHE_SIZE cfg \<le> length validatedModels
                                    then evict_first validatedModels else validatedModels)
                          in (Inr (Val (JStr fb)), AList.update name fb vm)))
                | _ \<Rightarrow> (Inl TypeError, validatedModels))))"

text \<open>The map after a sequence of calls, whatever each call returned.\<close>

fun resolve_all :: "js_runtime \<Rightarrow> config \<Rightarrow> model_cache \<Rightarrow> json list \<Rightarrow> model_cache" where
  "resolve_all rt cfg vm [] = vm"
| "resolve_all rt cfg vm (m # ms) = resolve_all rt cfg (snd (getOptimalModel rt cfg vm m)) ms"

section \<open>The route \<^verbatim>\<open>POST /v1/chat/completions\<close> up to the backend call\<close>

text \<open>
  \<^verbatim>\<open>nimRequest\<close>, the body posted to the backend. \<^verbatim>\<open>stream\<close> is \<^verbatim>\<open>FORCE_STREAMING || stream\<close>,
  which is \<^verbatim>\<open>undefined\<close> when streaming is not forced and the caller gave none.
\<close>

record nim_request =
  req_model :: js_value
  req_messages :: json
  req_temperature :: json
  req_max_tokens :: json
  req_stream :: "json option"
  req_extra_body :: "json option"

text \<open>
  What the route does before it waits for the backend: it answers at once
  (\<^verbatim>\<open>res.status(n).json(body)\<close>), or it posts \<^verbatim>\<open>nimRequest\<close> to the backend, or an
  exception reaches its \<^verbatim>\<open>catch\<close> block (which answers with status 500 and the
  exception's message). The log line 124 is not part of the model: with forced
  streaming, the repository's setting, it prints the resolved model and \<^verbatim>\<open>true\<close>.
\<close>

datatype outcome = Respond nat json | Forward nim_request | Caught error

definition error_envelope :: "string \<Rightarrow> nat \<Rightarrow> json" where
  "error_envelope message code =
     JObj [(''error'', JObj [(''message'', JStr message),
                             (''type'', JStr ''invalid_request_error''),
                             (''code'', JNum (of_nat code))])]"

fun isArray :: "json option \<Rightarrow> bool" where
  "isArray (Some (JArr xs)) = True"
| "isArray v = False"

fun array_length :: "json option \<Rightarrow> nat" where
  "array_length (Some (JArr xs)) = length xs"
| "array_length v = 0"

text \<open>\<^verbatim>\<open>!messages || !Array.isArray(messages) || messages.length === 0\<close>, left to right.\<close>

definition messages_invalid :: "json option \<Rightarrow> bool" where
  "messages_invalid messages =
     (if \<not> truthy_opt messages then True
      else if \<not> isArray messages then True
      else array_length messages = 0)"

definition chat_completions ::
  "js_runtime \<Rightarrow> config \<Rightarrow> model_cache \<Rightarrow> json \<Rightarrow> outcome \<times> model_cache" where
  "chat_completions rt cfg validatedModels body =
     (let model = get_field body ''model'';
          messages = get_field body ''messages'';
          temperature = get_field body ''temperature'';
          max_tokens = get_field body ''max_tokens'';
          stream = get_field body ''stream''
      in if messages_invalid messages
         then (Respond 400
                 (error_envelope ''messages field is required and must be a non-empty array'' 400),
               validatedModels)
         else
           (case getOptimalModel rt cfg validatedModels (js_or model (JStr ''gpt-4o'')) of
              (Inl e, vm) \<Rightarrow> (Caught e, vm)
            | (Inr nimModel, vm) \<Rightarrow>
                (Forward
                   \<lparr>req_model = nimModel,
                    req_messages = (case messages of Some ms \<Rightarrow> ms | None \<Rightarrow> JNull),
                    req_temperature = js_or temperature (JNum (6 / 10)),
                    req_max_tokens = js_or max_tokens (JNum 2048),
                    req_stream = (if FORCE_STREAMING cfg then Some (JBool True) else stream),
                    req_extra_body =
                      (if ENABLE_THINKING_MODE cfg
                       then Some (JObj [(''chat_template_kwargs'',
                                         JObj [(''thinking'', JBool True)])])
                       else None)\<rparr>,
                 vm)))"

section \<open>The streaming path: the \<^verbatim>\<open>data\<close> handler of the backend stream\<close>

text \<open>
  Assignments through \<^verbatim>\<open>data.choices[0].delta\<close> change \<^verbatim>\<open>data\<close> in place. The file is
  not in strict mode: an assignment to a property of a string, number or boolean is
  ignored, and a property added to an array is not part of its JSON text.
\<close>

fun set_field :: "string \<Rightarrow> json \<Rightarrow> json \<Rightarrow> json" where
  "set_field k x (JObj kvs) = JObj (AList.update k x kvs)"
| "set_field k x v = v"

fun delete_field :: "string \<Rightarrow> json \<Rightarrow> json" where
  "delete_field k (JObj kvs) = JObj (AList.delete k kvs)"
| "delete_field k v = v"

fun map_field :: "string \<Rightarrow> (json \<Rightarrow> json) \<Rightarrow> json \<Rightarrow> json" where
  "map_field k f (JObj kvs) = JObj (AList.map_entry k f kvs)"
| "map_field k f v = v"

fun map_index0 :: "(json \<Rightarrow> json) \<Rightarrow> json \<Rightarrow> json" where
  "map_index0 f (JArr (x # xs)) = JArr (f x # xs)"
| "map_index0 f (JObj kvs) = JObj (AList.map_entry ''0'' f kvs)"
| "map_index0 f v = v"

text \<open>\<^verbatim>\<open>data.choices?.[0]?.delta\<close>, and a change made to the object it refers to.\<close>

definition first_delta :: "json \<Rightarrow> json option" where
  "first_delta data = opt_field (opt_index0 (get_field data ''choices'')) ''delta''"

definition update_first_delta :: "(json \<Rightarrow> json) \<Rightarrow> json \<Rightarrow> json" where
  "update_first_delta f data = map_field ''choices'' (map_index0 (map_field ''delta'' f)) data"

text \<open>
  \<^verbatim>\<open>a + b\<close> where one of the operands is a string: both are converted and joined, and
  the exception of a conversion is the exception of the sum.
\<close>

definition js_concat :: "(rat \<Rightarrow> string) \<Rightarrow> json \<Rightarrow> json \<Rightarrow> error + json" where
  "js_concat ns a b =
     (case to_str ns a of
        Inl e \<Rightarrow> Inl e
      | Inr s \<Rightarrow> (case to_str ns b of Inl e \<Rightarrow> Inl e | Inr t \<Rightarrow> Inr (JStr (s @ t))))"

text \<open>
  Lines 192 to 206: \<^verbatim>\<open>combinedContent\<close> and the new \<^verbatim>\<open>reasoningStarted\<close>. Each sum is
  evaluated before the flag is assigned, so a conversion that throws leaves the flag as
  the statements before it had set it; the result is then the exception and that flag.
  In the last \<^verbatim>\<open>else if (content)\<close> the flag is false, so neither reasoning branch has
  run and \<^verbatim>\<open>combinedContent\<close> is still the empty string: \<^verbatim>\<open>+=\<close> is a string concatenation
  there as well.
\<close>

definition merge_reasoning ::
  "(rat \<Rightarrow> string) \<Rightarrow> bool \<Rightarrow> json option \<Rightarrow> (error + json) \<times> bool" where
  "merge_reasoning ns reasoningStarted reasoning =
     (case reasoning of
        None \<Rightarrow> (Inr (JStr []), reasoningStarted)
      | Some r \<Rightarrow>
          if truthy r \<and> \<not> reasoningStarted
          then (case js_concat ns (JStr ''<think>\<newline>'') r of
                  Inl e \<Rightarrow> (Inl e, reasoningStarted)
                | Inr combined \<Rightarrow> (Inr combined, True))
          else if truthy r then (Inr r, reasoningStarted)
          else (Inr (JStr []), reasoningStarted))"

definition merge_content ::
  "(rat \<Rightarrow> string) \<Rightarrow> bool \<Rightarrow> json \<Rightarrow> json option \<Rightarrow> (error + json) \<times> bool" where
  "merge_content ns reasoningStarted combinedContent content =
     (case content of
        None \<Rightarrow> (Inr combinedContent, reasoningStarted)
      | Some c \<Rightarrow>
          if truthy c \<and> reasoningStarted
          then (case js_concat ns (JStr ''</think>\<newline>\<newline>'') c of
                  Inl e \<Rightarrow> (Inl e, reasoningStarted)
                | Inr closing \<Rightarrow>
                    (case js_concat ns combinedContent closing of
                       Inl e \<Rightarrow> (Inl e, reasoningStarted)
                     | Inr combined \<Rightarrow> (Inr combined, False)))
          else if truthy c
          then (case js_concat ns combinedContent c of
                  Inl e \<Rightarrow> (Inl e, reasoningStarted)
                | Inr combined \<Rightarrow> (Inr combined, reasoningStarted))
          else (Inr combinedContent, reasoningStarted))"

definition merge_fragments ::
  "(rat \<Rightarrow> string) \<Rightarrow> bool \<Rightarrow> json option \<Rightarrow> json option \<Rightarrow> (error + json) \<times> bool" where
  "merge_fragments ns reasoningStarted reasoning content =
     (case merge_reasoning ns reasoningStarted reasoning of
        (Inl e, started) \<Rightarrow> (Inl e, started)
      | (Inr combinedContent, started) \<Rightarrow> merge_content ns started combinedContent content)"

text \<open>
  Lines 187 to 216, for a parsed \<^verbatim>\<open>data\<close> that is not \<^verbatim>\<open>null\<close>: the event as it is
  written, or the exception thrown on the way, and the new \<^verbatim>\<open>reasoningStarted\<close>.
\<close>

definition handle_event ::
  "js_runtime \<Rightarrow> config \<Rightarrow> bool \<Rightarrow> json \<Rightarrow> (error + json) \<times> bool" where
  "handle_event rt cfg reasoningStarted data =
     (case first_delta data of
        None \<Rightarrow> (Inr data, reasoningStarted)
      | Some delta \<Rightarrow>
          if truthy delta then
            (let reasoning = get_field delta ''reasoning_content'';
                 content = get_field delta ''content''
             in if SHOW_REASONING cfg then
                  (case merge_fragments (Number_toString rt) reasoningStarted reasoning content of
                     (Inl e, started) \<Rightarrow> (Inl e, started)
                   | (Inr combinedContent, started) \<Rightarrow>
                       if truthy combinedContent
                       then (Inr (update_first_delta
                                    (\<lambda>d. delete_field ''reasoning_content''
                                           (set_field ''content'' combinedContent d)) data),
                             started)
                       else (Inr data, started))
                else
                  (Inr (update_first_delta
                          (\<lambda>d. delete_field ''reasoning_content''
                                 (set_field ''content'' (js_or content (JStr [])) d)) data),
                   reasoningStarted))
          else (Inr data, reasoningStarted))"

text \<open>
  What \<^verbatim>\<open>res.write\<close> is given: a text as it is, or \<^verbatim>\<open>data: \<close> followed by the JSON text
  of an event and an empty line.
\<close>

datatype sse_write = WriteText string | WriteData json

text \<open>
  One line of the stream (lines 179 to 222). \<^verbatim>\<open>JSON.parse\<close> throws on a malformed
  payload, \<^verbatim>\<open>data.choices\<close> throws when the payload is \<^verbatim>\<open>null\<close>, and a sum of the merge
  may throw; the \<^verbatim>\<open>catch\<close> block is the same for all of them, and it does not undo an
  assignment to \<^verbatim>\<open>reasoningStarted\<close>.
\<close>

definition process_line ::
  "js_runtime \<Rightarrow> config \<Rightarrow> bool \<Rightarrow> string \<Rightarrow> sse_write list \<times> bool" where
  "process_line rt cfg reasoningStarted line =
     (if startsWith line ''data: '' then
        if str_includes line ''[DONE]''
        then ([WriteText (line @ ''\<newline>\<newline>'')], reasoningStarted)
        else
          (case JSON_parse rt (drop 6 line) of
             None \<Rightarrow> ([WriteText (line @ ''\<newline>'')], reasoningStarted)
           | Some data \<Rightarrow>
               if data = JNull
               then ([WriteText (line @ ''\<newline>'')], reasoningStarted)
               else (case handle_event rt cfg reasoningStarted data of
                       (Inl e, started) \<Rightarrow> ([WriteText (line @ ''\<newline>'')], started)
                     | (Inr written, started) \<Rightarrow> ([WriteData written], started)))
      else ([], reasoningStarted))"

fun process_lines ::
  "js_runtime \<Rightarrow> config \<Rightarrow> bool \<Rightarrow> string list \<Rightarrow> sse_write list \<times> bool" where
  "process_lines rt cfg reasoningStarted [] = ([], reasoningStarted)"
| "process_lines rt cfg reasoningStarted (line # lines) =
     (let (out1, started1) = process_line rt cfg reasoningStarted line;
          (out2, started2) = process_lines rt cfg started1 lines
      in (out1 @ out2, started2))"

text \<open>\<^verbatim>\<open>buffer.split('\n')\<close>: never empty, its last element is the unfinished line.\<close>

fun split_lines :: "string \<Rightarrow> string list" where
  "split_lines [] = [[]]"
| "split_lines (c # cs) =
     (if c = CHR ''\<newline>'' then [] # split_lines cs
      else (case split_lines cs of [] \<Rightarrow> [[c]] | l # ls \<Rightarrow> (c # l) # ls))"

record stream_state =
  buffer :: string
  reasoningStarted :: bool

text \<open>Lines 174 to 178: each chunk is decoded by itself and appended to the buffer.\<close>

definition on_data ::
  "js_runtime \<Rightarrow> config \<Rightarrow> stream_state \<Rightarrow> bytes \<Rightarrow> sse_write list \<times> stream_state" where
  "on_data rt cfg st chunk =
     (let lines = split_lines (buffer st @ Buffer_toString rt chunk);
          (out, started) = process_lines rt cfg (reasoningStarted st) (butlast lines)
      in (out, \<lparr>buffer = last lines, reasoningStarted = started\<rparr>))"

section \<open>The non-streaming path: \<^verbatim>\<open>openaiResponse.choices\<close>\<close>

text \<open>An object literal: a property whose value is \<^verbatim>\<open>undefined\<close> has no JSON text.\<close>

fun object_of :: "(string \<times> json option) list \<Rightarrow> (string \<times> json) list" where
  "object_of [] = []"
| "object_of ((k, None) # kvs) = object_of kvs"
| "object_of ((k, Some v) # kvs) = (k, v) # object_of kvs"

text \<open>
  Lines 254 to 269 for one element of \<^verbatim>\<open>response.data.choices\<close>. \<^verbatim>\<open>choice.message\<close> throws
  on a \<^verbatim>\<open>null\<close> choice, a sum of line 258 throws when a conversion does, and
  \<^verbatim>\<open>choice.message.role\<close> throws when the message is missing or \<^verbatim>\<open>null\<close>.
\<close>

definition full_content :: "js_runtime \<Rightarrow> config \<Rightarrow> json option \<Rightarrow> error + json" where
  "full_content rt cfg message =
     (let fullContent = js_or (opt_field message ''content'') (JStr [])
      in (case opt_field message ''reasoning_content'' of
            None \<Rightarrow> Inr fullContent
          | Some reasoning \<Rightarrow>
              if SHOW_REASONING cfg \<and> truthy reasoning
              then (case js_concat (Number_toString rt) (JStr ''<think>\<newline>'') reasoning of
                      Inl e \<Rightarrow> Inl e
                    | Inr prefixed \<Rightarrow>
                        (case js_concat (Number_toString rt) prefixed
                                (JStr ''\<newline></think>\<newline>\<newline>'') of
                           Inl e \<Rightarrow> Inl e
                         | Inr wrapped \<Rightarrow> js_concat (Number_toString rt) wrapped fullContent))
              else Inr fullContent))"

definition assemble_choice :: "js_runtime \<Rightarrow> config \<Rightarrow> json \<Rightarrow> error + json" where
  "assemble_choice rt cfg choice =
     (if choice = JNull then Inl TypeError
      else
        (let message = get_field choice ''message''
         in (case full_content rt cfg message of
               Inl e \<Rightarrow> Inl e
             | Inr fullContent \<Rightarrow>
                 (case message of
                    None \<Rightarrow> Inl TypeError
                  | Some m \<Rightarrow>
                      if m = JNull then Inl TypeError
                      else Inr (JObj (object_of
                             [(''index'', get_field choice ''index''),
                              (''message'', Some (JObj (object_of
                                 [(''role'', get_field m ''role''),
                                  (''content'', Some fullContent)]))),
                              (''finish_reason'', get_field choice ''finish_reason'')]))))))"

text \<open>\<^verbatim>\<open>Array.prototype.map\<close> with a callback that may throw: the first exception ends it.\<close>

fun map_throwing :: "('a \<Rightarrow> error + 'b) \<Rightarrow> 'a list \<Rightarrow> error + 'b list" where
  "map_throwing f [] = Inr []"
| "map_throwing f (x # xs) =
     (case f x of
        Inl e \<Rightarrow> Inl e
      | Inr y \<Rightarrow> (case map_throwing f xs of Inl e \<Rightarrow> Inl e | Inr ys \<Rightarrow> Inr (y # ys)))"

definition assemble_choices :: "js_runtime \<Rightarrow> config \<Rightarrow> json \<Rightarrow> error + json list" where
  "assemble_choices rt cfg response_data =
     (if response_data = JNull then Inl TypeError
      else (case get_field response_data ''choices'' of
              Some (JArr choices) \<Rightarrow> map_throwing (assemble_choice rt cfg) choices
            | _ \<Rightarrow> Inl TypeError))"

section \<open>Vocabulary of the statements\<close>

text \<open>The \<^verbatim>\<open>content\<close> and \<^verbatim>\<open>reasoning_content\<close> of the first delta of a written event.\<close>

fun written_content :: "sse_write \<Rightarrow> json option" where
  "written_content (WriteData d) = opt_field (first_delta d) ''content''"
| "written_content (WriteText t) = None"

fun written_reasoning :: "sse_write \<Rightarrow> json option" where
  "written_reasoning (WriteData d) = opt_field (first_delta d) ''reasoning_content''"
| "written_reasoning (WriteText t) = None"

text \<open>
  The visible text a write adds to the caller's content: the string in the \<^verbatim>\<open>content\<close> of
  the first delta, and nothing when there is none or the write is a forwarded text.
\<close>

definition emitted_text :: "sse_write \<Rightarrow> string" where
  "emitted_text w = (case written_content w of Some (JStr s) \<Rightarrow> s | _ \<Rightarrow> [])"

text \<open>The \<^verbatim>\<open>reasoning_content\<close> of the delta of every choice of a written event.\<close>

fun choice_reasonings :: "sse_write \<Rightarrow> json option list" where
  "choice_reasonings (WriteData d) =
     (case get_field d ''choices'' of
        Some (JArr choices) \<Rightarrow>
          map (\<lambda>c. opt_field (get_field c ''delta'') ''reasoning_content'') choices
      | _ \<Rightarrow> [])"
| "choice_reasonings (WriteText t) = []"


text \<open>A marker put before the first fragment of a list only.\<close>

fun mark_first :: "string \<Rightarrow> string list \<Rightarrow> string list" where
  "mark_first m [] = []"
| "mark_first m (x # xs) = (m @ x) # xs"

text \<open>The \<^verbatim>\<open>content\<close> of the message of an assembled choice.\<close>

fun assembled_content :: "error + json \<Rightarrow> json option" where
  "assembled_content (Inr choice) = opt_field (get_field choice ''message'') ''content''"
| "assembled_content (Inl e) = None"

subsection \<open>The lines of a stream by what they carry\<close>

text \<open>
  A fragment of a delta as a string: the empty string stands for a field that is
  missing, \<^verbatim>\<open>null\<close>, empty or otherwise falsy. A truthy value that is not a string is no
  fragment.
\<close>

fun fragment :: "json option \<Rightarrow> string option" where
  "fragment None = Some []"
| "fragment (Some (JStr s)) = Some s"
| "fragment (Some v) = (if truthy v then None else Some [])"

text \<open>
  A line of the stream is skipped (it does not start with \<^verbatim>\<open>data: \<close>), or forwarded as
  text (it contains \<^verbatim>\<open>[DONE]\<close>, or its payload does not parse or is \<^verbatim>\<open>null\<close>), or it is
  an event whose first delta carries a reasoning fragment and a visible fragment, each
  possibly empty (both are empty when the event has no first delta or the delta is not
  an object). A line with a fragment that is not a string has no kind.
\<close>

datatype line_kind = Skipped | Forwarded | Fragments string string

definition classify_line :: "js_runtime \<Rightarrow> string \<Rightarrow> line_kind option" where
  "classify_line rt line =
     (if \<not> startsWith line ''data: '' then Some Skipped
      else if str_includes line ''[DONE]'' then Some Forwarded
      else
        (case JSON_parse rt (drop 6 line) of
           None \<Rightarrow> Some Forwarded
         | Some data \<Rightarrow>
             if data = JNull then Some Forwarded
             else
               (case first_delta data of
                  None \<Rightarrow> Some (Fragments [] [])
                | Some delta \<Rightarrow>
                    if truthy delta then
                      (case fragment (get_field delta ''reasoning_content'') of
                         None \<Rightarrow> None
                       | Some r \<Rightarrow>
                           (case fragment (get_field delta ''content'') of
                              None \<Rightarrow> None
                            | Some c \<Rightarrow> Some (Fragments r c)))
                    else Some (Fragments [] []))))"

subsection \<open>The merge state machine in the words of the specification\<close>

text \<open>
  A second definition of merge mode, written after section 4.3 of the specification
  and not after the code, with which the code is compared. A reasoning fragment that arrives while reasoning is not open is emitted after
  an opening marker and opens it; while open it is emitted as it is. A visible fragment
  that arrives while reasoning is open is emitted after a closing marker and closes it;
  while not open it is emitted as it is. An empty fragment changes nothing. A delta
  with both fragments is its reasoning fragment followed by its visible fragment.
\<close>

definition spec_reasoning :: "bool \<Rightarrow> string \<Rightarrow> string \<times> bool" where
  "spec_reasoning reasoningOpen r =
     (if r = [] then ([], reasoningOpen)
      else if reasoningOpen then (r, True)
      else (''<think>\<newline>'' @ r, True))"

definition spec_visible :: "bool \<Rightarrow> string \<Rightarrow> string \<times> bool" where
  "spec_visible reasoningOpen c =
     (if c = [] then ([], reasoningOpen)
      else if reasoningOpen then (''</think>\<newline>\<newline>'' @ c, False)
      else (c, False))"

text \<open>
  One line: the texts emitted for it (none for a skipped line, an empty one for a
  forwarded line, which adds nothing to the content) and the state after it. Then a
  whole stream.
\<close>

fun spec_line :: "bool \<Rightarrow> line_kind \<Rightarrow> string list \<times> bool" where
  "spec_line reasoningOpen Skipped = ([], reasoningOpen)"
| "spec_line reasoningOpen Forwarded = ([[]], reasoningOpen)"
| "spec_line reasoningOpen (Fragments r c) =
     (let (t1, open1) = spec_reasoning reasoningOpen r;
          (t2, open2) = spec_visible open1 c
      in ([t1 @ t2], open2))"

fun spec_stream :: "bool \<Rightarrow> line_kind list \<Rightarrow> string list \<times> bool" where
  "spec_stream reasoningOpen [] = ([], reasoningOpen)"
| "spec_stream reasoningOpen (k # ks) =
     (let (out1, open1) = spec_line reasoningOpen k;
          (out2, open2) = spec_stream open1 ks
      in (out1 @ out2, open2))"

section \<open>Sample inputs\<close>

text \<open>
  Lines of a backend stream, and a runtime whose \<^verbatim>\<open>JSON.parse\<close> is given on their
  payloads (it throws on every other text, among them the cut-off payload of
  \<open>line_cut_off\<close>). No sample converts a number to text or decodes a byte outside
  ASCII.
\<close>

definition line_reasoning_a :: string where
  \<open>line_reasoning_a = ''data: {"choices":[{"index":0,"delta":{"reasoning_content":"a"}}]}''\<close>

definition line_reasoning_b :: string where
  \<open>line_reasoning_b = ''data: {"choices":[{"index":0,"delta":{"reasoning_content":"b"}}]}''\<close>

definition line_content_c :: string where
  \<open>line_content_c = ''data: {"choices":[{"index":0,"delta":{"content":"c"}}]}''\<close>

definition line_content_d :: string where
  \<open>line_content_d = ''data: {"choices":[{"index":0,"delta":{"content":"d"}}]}''\<close>

definition line_two_choices :: string where
  \<open>line_two_choices = ''data: {"choices":[{"index":0,"delta":{"content":"x","reasoning_content":"r0"}},{"index":1,"delta":{"content":"y","reasoning_content":"r1"}}]}''\<close>

definition line_empty_fragments :: string where
  \<open>line_empty_fragments = ''data: {"choices":[{"index":0,"delta":{"role":"assistant","content":"","reasoning_content":""}}]}''\<close>

definition line_done_in_content :: string where
  \<open>line_done_in_content = ''data: {"choices":[{"index":0,"delta":{"content":"[DONE]","reasoning_content":"r"}}]}''\<close>

definition line_both_fragments :: string where
  \<open>line_both_fragments = ''data: {"choices":[{"index":0,"delta":{"reasoning_content":"e","content":"f"}}]}''\<close>

definition line_cut_off :: string where
  \<open>line_cut_off = ''data: {"choices":[{"index":0,"delta":{"content":"he''\<close>

definition one_choice :: "(string \<times> json) list \<Rightarrow> json" where
  "one_choice delta = JObj [(''choices'', JArr [JObj [(''index'', JNum 0), (''delta'', JObj delta)]])]"

definition sample_events :: "(string \<times> json) list" where
  "sample_events =
     [(drop 6 line_reasoning_a, one_choice [(''reasoning_content'', JStr ''a'')]),
      (drop 6 line_reasoning_b, one_choice [(''reasoning_content'', JStr ''b'')]),
      (drop 6 line_content_c, one_choice [(''content'', JStr ''c'')]),
      (drop 6 line_content_d, one_choice [(''content'', JStr ''d'')]),
      (drop 6 line_two_choices,
         JObj [(''choices'', JArr
           [JObj [(''index'', JNum 0),
                  (''delta'', JObj [(''content'', JStr ''x''), (''reasoning_content'', JStr ''r0'')])],
            JObj [(''index'', JNum 1),
                  (''delta'', JObj [(''content'', JStr ''y''), (''reasoning_content'', JStr ''r1'')])]])]),
      (drop 6 line_empty_fragments,
         one_choice [(''role'', JStr ''assistant''), (''content'', JStr []),
                     (''reasoning_content'', JStr [])]),
      (drop 6 line_done_in_content,
         one_choice [(''content'', JStr ''[DONE]''), (''reasoning_content'', JStr ''r'')]),
      (drop 6 line_both_fragments,
         one_choice [(''reasoning_content'', JStr ''e''), (''content'', JStr ''f'')])]"

definition sample_runtime :: js_runtime where
  "sample_runtime =
     \<lparr>JSON_parse = map_of sample_events, Number_toString = (\<lambda>q. []),
      Buffer_toString = map char_of\<rparr>"

definition merge_config :: config where
  "merge_config = server_config\<lparr>SHOW_REASONING := True\<rparr>"

definition bound2_config :: config where
  "bound2_config = server_config\<lparr>MAX_CACHE_SIZE := 2\<rparr>"

definition sample_choice :: json where
  "sample_choice =
     JObj [(''index'', JNum 0),
           (''message'', JObj [(''role'', JStr ''assistant''), (''content'', JStr ''c''),
                               (''reasoning_content'', JStr ''r'')]),
           (''finish_reason'', JStr ''stop'')]"

definition user_hi :: json where
  "user_hi = JArr [JObj [(''role'', JStr ''user''), (''content'', JStr ''hi'')]]"

section \<open>Facts about conversion to a string\<close>

lemma to_str_array:
  "to_str ns (JArr [JStr ''a'', JNull, JArr [JStr ''b'', JBool True]]) = Inr ''a,,b,true''"
  by simp

lemma to_str_own_toString:
  "to_str ns (JObj [(''toString'', JNum 1)]) = Inl TypeError"
  "to_str ns (JArr [JStr ''a'', JObj [(''toString'', JNum 1)]]) = Inl TypeError"
  "to_str ns (JObj [(''valueOf'', JNum 1)]) = Inr ''[object Object]''"
  by simp_all

section \<open>Facts about the model cache\<close>

lemma update_fresh: "map_of al k = None \<Longrightarrow> AList.update k v al = al @ [(k, v)]"
  by (induction al) (auto split: if_splits)

lemma evict_first_distinct: "distinct (map fst vm) \<Longrightarrow> evict_first vm = tl vm"
  by (cases vm) (auto simp: evict_first_def)

lemma map_of_tl_None:
  "distinct (map fst vm) \<Longrightarrow> map_of vm k = None \<Longrightarrow> map_of (tl vm) k = None"
  by (cases vm) (auto split: if_splits)

text \<open>
  A call changes the map only for a string that is neither found by the table lookup
  nor a key of the map: a hit in the table or in the map, and a call that throws, leave
  the map and the order of its entries as they are.
\<close>

lemma getOptimalModel_unchanged:
  assumes "\<And>name. m = JStr name \<Longrightarrow> MODEL_MAPPING_get name \<noteq> None \<or> map_of vm name \<noteq> None"
  shows "snd (getOptimalModel rt cfg vm m) = vm"
  using assms
  by (cases m) (auto simp: getOptimalModel_def Let_def split: option.splits sum.splits)

lemma getOptimalModel_unseen:
  assumes "MODEL_MAPPING_get name = None" "map_of vm name = None" "distinct (map fst vm)"
  shows "getOptimalModel rt cfg vm (JStr name) =
     (Inr (Val (JStr (fallbackModel name))),
      (if MAX_CACHE_SIZE cfg \<le> length vm then tl vm else vm) @ [(name, fallbackModel name)])"
  using assms
  by (auto simp: getOptimalModel_def Let_def evict_first_distinct update_fresh map_of_tl_None)

lemma getOptimalModel_inv:
  assumes "0 < MAX_CACHE_SIZE cfg" "distinct (map fst vm)" "length vm \<le> MAX_CACHE_SIZE cfg"
  shows "distinct (map fst (snd (getOptimalModel rt cfg vm m))) \<and>
         length (snd (getOptimalModel rt cfg vm m)) \<le> MAX_CACHE_SIZE cfg"
proof (cases "\<exists>name. m = JStr name \<and> MODEL_MAPPING_get name = None \<and> map_of vm name = None")
  case False
  then have "snd (getOptimalModel rt cfg vm m) = vm"
    by (intro getOptimalModel_unchanged) auto
  then show ?thesis using assms by simp
next
  case True
  then obtain name where new: "m = JStr name" "MODEL_MAPPING_get name = None"
    "map_of vm name = None" by blast
  have d: "distinct (map fst (tl vm))" using assms(2) by (cases vm) auto
  show ?thesis
    using assms d new(3) unfolding new(1) getOptimalModel_unseen[OF new(2,3) assms(2)]
    by (cases vm) (auto simp: map_of_eq_None_iff split: if_splits)
qed

lemma resolve_all_inv:
  assumes "0 < MAX_CACHE_SIZE cfg"
  shows "distinct (map fst vm) \<Longrightarrow> length vm \<le> MAX_CACHE_SIZE cfg \<Longrightarrow>
    distinct (map fst (resolve_all rt cfg vm ms)) \<and>
    length (resolve_all rt cfg vm ms) \<le> MAX_CACHE_SIZE cfg"
proof (induction ms arbitrary: vm)
  case Nil
  then show ?case by simp
next
  case (Cons m ms)
  from getOptimalModel_inv[OF assms Cons.prems, of rt m] Cons.IH
  show ?case by simp
qed

text \<open>
  C3. Start from the empty map and make any sequence of calls; let the bound be at
  least 1 (the program's is 100). The map then holds at most \<^verbatim>\<open>MAX_CACHE_SIZE\<close> entries,
  and the next call, whatever its argument, does exactly this to it: for a string that
  is neither found by the table lookup nor a key of the map, the entry at the head of
  the list is dropped if the map is full and the name is appended at the end with its
  fallback; for every other argument (a name of the table, a name already in the map,
  a value that is no string) the map stays as it is, order included. So the entries
  are always in the order of their insertion, a hit does not refresh an entry, and the
  entry dropped is the one inserted earliest.
\<close>

theorem cache_bounded_fifo:
  assumes "0 < MAX_CACHE_SIZE cfg"
  shows "length (resolve_all rt cfg [] ms) \<le> MAX_CACHE_SIZE cfg \<and>
    (\<forall>m. snd (getOptimalModel rt cfg (resolve_all rt cfg [] ms) m) =
       (case m of
          JStr name \<Rightarrow>
            if MODEL_MAPPING_get name = None \<and> map_of (resolve_all rt cfg [] ms) name = None
            then (if length (resolve_all rt cfg [] ms) = MAX_CACHE_SIZE cfg
                  then tl (resolve_all rt cfg [] ms) else resolve_all rt cfg [] ms)
                 @ [(name, fallbackModel name)]
            else resolve_all rt cfg [] ms
        | _ \<Rightarrow> resolve_all rt cfg [] ms))"
proof -
  have inv: "distinct (map fst (resolve_all rt cfg [] ms)) \<and>
             length (resolve_all rt cfg [] ms) \<le> MAX_CACHE_SIZE cfg"
    using resolve_all_inv[OF assms, of "[]" rt ms] by simp
  have "snd (getOptimalModel rt cfg (resolve_all rt cfg [] ms) m) =
       (case m of
          JStr name \<Rightarrow>
            if MODEL_MAPPING_get name = None \<and> map_of (resolve_all rt cfg [] ms) name = None
            then (if length (resolve_all rt cfg [] ms) = MAX_CACHE_SIZE cfg
                  then tl (resolve_all rt cfg [] ms) else resolve_all rt cfg [] ms)
                 @ [(name, fallbackModel name)]
            else resolve_all rt cfg [] ms
        | _ \<Rightarrow> resolve_all rt cfg [] ms)" for m
  proof (cases "\<exists>name. m = JStr name \<and> MODEL_MAPPING_get name = None \<and>
                  map_of (resolve_all rt cfg [] ms) name = None")
    case True
    then show ?thesis using inv by (auto simp: getOptimalModel_unseen)
  next
    case False
    then have "snd (getOptimalModel rt cfg (resolve_all rt cfg [] ms) m) = resolve_all rt cfg [] ms"
      by (intro getOptimalModel_unchanged) auto
    then show ?thesis using False by (cases m) auto
  qed
  with inv show ?thesis by blast
qed

text \<open>
  With bound 2: after the names a, b and a again (a hit) the map is still a, b; the
  unseen name c then evicts a, the entry inserted first, although a was the one used
  last; and a name of the table leaves the map alone.
\<close>

theorem cache_bounded_fifo_witness:
  "0 < MAX_CACHE_SIZE bound2_config \<and>
   resolve_all sample_runtime bound2_config []
       [JStr ''model-a'', JStr ''model-b'', JStr ''model-a''] =
     [(''model-a'', ''deepseek-ai/deepseek-v3.1''), (''model-b'', ''deepseek-ai/deepseek-v3.1'')] \<and>
   length (resolve_all sample_runtime bound2_config []
       [JStr ''model-a'', JStr ''model-b'', JStr ''model-a'']) \<le> MAX_CACHE_SIZE bound2_config \<and>
   snd (getOptimalModel sample_runtime bound2_config
          (resolve_all sample_runtime bound2_config []
             [JStr ''model-a'', JStr ''model-b'', JStr ''model-a''])
          (JStr ''claude-x'')) =
     [(''model-b'', ''deepseek-ai/deepseek-v3.1''), (''claude-x'', ''meta/llama-3.1-70b-instruct'')] \<and>
   snd (getOptimalModel sample_runtime bound2_config
          (resolve_all sample_runtime bound2_config []
             [JStr ''model-a'', JStr ''model-b'', JStr ''model-a''])
          (JStr ''gpt-4'')) =
     [(''model-a'', ''deepseek-ai/deepseek-v3.1''), (''model-b'', ''deepseek-ai/deepseek-v3.1'')]"
proof -
  have b: "0 < MAX_CACHE_SIZE bound2_config"
    by (simp add: bound2_config_def server_config_def)
  have r: "resolve_all sample_runtime bound2_config []
       [JStr ''model-a'', JStr ''model-b'', JStr ''model-a''] =
     [(''model-a'', ''deepseek-ai/deepseek-v3.1''), (''model-b'', ''deepseek-ai/deepseek-v3.1'')]"
    by code_simp
  have u: "MODEL_MAPPING_get ''claude-x'' = None" by code_simp
  have t: "MODEL_MAPPING_get ''gpt-4'' \<noteq> None" by code_simp
  have f: "fallbackModel ''claude-x'' = ''meta/llama-3.1-70b-instruct''" by code_simp
  have m: "MAX_CACHE_SIZE bound2_config = 2"
    by (simp add: bound2_config_def server_config_def)
  note fifo = cache_bounded_fifo[OF b, of sample_runtime
      "[JStr ''model-a'', JStr ''model-b'', JStr ''model-a'']", unfolded r]
  from fifo have c: "snd (getOptimalModel sample_runtime bound2_config
          [(''model-a'', ''deepseek-ai/deepseek-v3.1''), (''model-b'', ''deepseek-ai/deepseek-v3.1'')]
          (JStr ''claude-x'')) =
     [(''model-b'', ''deepseek-ai/deepseek-v3.1''), (''claude-x'', ''meta/llama-3.1-70b-instruct'')]"
    using u by (simp add: f m)
  from fifo have g: "snd (getOptimalModel sample_runtime bound2_config
          [(''model-a'', ''deepseek-ai/deepseek-v3.1''), (''model-b'', ''deepseek-ai/deepseek-v3.1'')]
          (JStr ''gpt-4'')) =
     [(''model-a'', ''deepseek-ai/deepseek-v3.1''), (''model-b'', ''deepseek-ai/deepseek-v3.1'')]"
    using t by simp
  show ?thesis
    unfolding r using b c g by (simp add: m)
qed

section \<open>Facts about the heuristics\<close>

text \<open>
  For a string that \<^verbatim>\<open>MODEL_MAPPING[name]\<close> does not find, the call returns the bucket
  of the heuristic chain, and a second call returns the same value from the map.
\<close>

lemma getOptimalModel_heuristic:
  assumes "MODEL_MAPPING_get name = None" "map_of vm name = None"
  shows "fst (getOptimalModel rt cfg vm (JStr name)) = Inr (Val (JStr (fallbackModel name)))"
  using assms by (simp add: getOptimalModel_def Let_def)

lemma getOptimalModel_cached:
  assumes "MODEL_MAPPING_get name = None" "map_of vm name = Some v"
  shows "getOptimalModel rt cfg vm (JStr name) = (Inr (Val (JStr v)), vm)"
  using assms by (simp add: getOptimalModel_def)

lemma getOptimalModel_repeat:
  assumes "MODEL_MAPPING_get name = None" "map_of vm name = None"
  shows "getOptimalModel rt cfg (snd (getOptimalModel rt cfg vm (JStr name))) (JStr name) =
           (fst (getOptimalModel rt cfg vm (JStr name)), snd (getOptimalModel rt cfg vm (JStr name)))"
  using assms by (simp add: getOptimalModel_def Let_def update_conv')

text \<open>
  C7. The name \<^verbatim>\<open>constructor\<close> is not a key of the table, and the heuristic chain puts
  it in the default bucket; but \<^verbatim>\<open>MODEL_MAPPING['constructor']\<close> finds the member
  inherited from \<^verbatim>\<open>Object.prototype\<close>, and \<^verbatim>\<open>getOptimalModel\<close> returns that function. The
  map is left as it was.
\<close>

theorem getOptimalModel_constructor:
  "map_of MODEL_MAPPING ''constructor'' = None \<and>
   fallbackModel ''constructor'' = ''deepseek-ai/deepseek-v3.1'' \<and>
   getOptimalModel rt cfg vm (JStr ''constructor'') = (Inr (Inherited ''constructor''), vm)"
proof -
  have "map_of MODEL_MAPPING ''constructor'' = None" by code_simp
  moreover have "fallbackModel ''constructor'' = ''deepseek-ai/deepseek-v3.1''" by code_simp
  moreover have "MODEL_MAPPING_get ''constructor'' = Some (Inherited ''constructor'')" by code_simp
  ultimately show ?thesis by (simp add: getOptimalModel_def)
qed

section \<open>Facts about the route\<close>

text \<open>
  C6. When \<^verbatim>\<open>messages\<close> is not a non-empty array (it is missing, or not an array, or
  the empty array), the route answers 400 with the validation envelope; it does not
  reach the backend call and leaves the model map alone.
\<close>

theorem invalid_messages_rejected:
  assumes "\<And>x xs. get_field body ''messages'' \<noteq> Some (JArr (x # xs))"
  shows "chat_completions rt cfg vm body =
     (Respond 400
        (JObj [(''error'',
                JObj [(''message'',
                       JStr ''messages field is required and must be a non-empty array''),
                      (''type'', JStr ''invalid_request_error''),
                      (''code'', JNum 400)])]),
      vm)"
proof -
  have "messages_invalid (get_field body ''messages'')"
  proof (cases "get_field body ''messages''")
    case None
    then show ?thesis by (simp add: messages_invalid_def)
  next
    case (Some v)
    then show ?thesis using assms
      by (cases v; cases "case v of JArr xs \<Rightarrow> xs | _ \<Rightarrow> []")
         (auto simp: messages_invalid_def)
  qed
  then show ?thesis
    by (simp add: chat_completions_def error_envelope_def)
qed

text \<open>A body without \<^verbatim>\<open>messages\<close>, one where it is a string, one where it is empty.\<close>

theorem invalid_messages_rejected_witness:
  "fst (chat_completions sample_runtime server_config [] (JObj [(''model'', JStr ''gpt-4'')])) =
     Respond 400
        (JObj [(''error'',
                JObj [(''message'',
                       JStr ''messages field is required and must be a non-empty array''),
                      (''type'', JStr ''invalid_request_error''),
                      (''code'', JNum 400)])]) \<and>
   fst (chat_completions sample_runtime server_config [] (JObj [(''messages'', JStr ''hi'')])) =
     fst (chat_completions sample_runtime server_config [] (JObj [(''model'', JStr ''gpt-4'')])) \<and>
   fst (chat_completions sample_runtime server_config [] (JObj [(''messages'', JArr [])])) =
     fst (chat_completions sample_runtime server_config [] (JObj [(''model'', JStr ''gpt-4'')]))"
  using invalid_messages_rejected[of "JObj [(''model'', JStr ''gpt-4'')]" sample_runtime server_config "[]"]
        invalid_messages_rejected[of "JObj [(''messages'', JStr ''hi'')]" sample_runtime server_config "[]"]
        invalid_messages_rejected[of "JObj [(''messages'', JArr [])]" sample_runtime server_config "[]"]
  by simp

text \<open>
  C4. A request with \<^verbatim>\<open>temperature: 0\<close> is sent on with temperature 0.6: \<^verbatim>\<open>||\<close> takes
  the default for every falsy value, not only for a missing one. \<^verbatim>\<open>max_tokens\<close> is the
  default 2048 and \<^verbatim>\<open>stream\<close> is true.
\<close>

theorem temperature_zero_replaced:
  "fst (chat_completions rt server_config vm
          (JObj [(''model'', JStr ''gpt-4''), (''messages'', user_hi),
                 (''temperature'', JNum 0), (''stream'', JBool False)])) =
     Forward \<lparr>req_model = Val (JStr ''qwen/qwen3-coder-480b-a35b-instruct''),
              req_messages = user_hi,
              req_temperature = JNum (6 / 10),
              req_max_tokens = JNum 2048,
              req_stream = Some (JBool True),
              req_extra_body = None\<rparr>"
proof -
  have "MODEL_MAPPING_get ''gpt-4'' = Some (Val (JStr ''qwen/qwen3-coder-480b-a35b-instruct''))"
    by code_simp
  then show ?thesis
    by (simp add: chat_completions_def messages_invalid_def user_hi_def getOptimalModel_def
        server_config_def)
qed

lemma get_field_set_field_other:
  "k' \<noteq> k \<Longrightarrow> get_field (set_field k x v) k' = get_field v k'"
  by (cases v) (simp_all add: update_conv')

lemma get_field_set_field_same:
  "get_field v k' = Some y \<Longrightarrow> get_field (set_field k x v) k = Some x"
  by (cases v) (simp_all add: update_conv')

text \<open>
  C10. A request without a \<^verbatim>\<open>model\<close> field (and with valid messages) is sent on with the
  table's entry for \<^verbatim>\<open>gpt-4o\<close>, exactly as the same request with \<^verbatim>\<open>model: "gpt-4o"\<close> is;
  the result is the same for every content of the model map, and the map is returned
  as it was.
\<close>

theorem missing_model_is_gpt4o:
  assumes "get_field body ''model'' = None"
    and "get_field body ''messages'' = Some (JArr (x # xs))"
  shows "\<exists>req. req_model req = Val (JStr ''deepseek-ai/deepseek-v3.1'') \<and>
     (\<forall>vm. chat_completions rt cfg vm body = (Forward req, vm) \<and>
           chat_completions rt cfg vm (set_field ''model'' (JStr ''gpt-4o'') body) = (Forward req, vm))"
proof -
  have t: "MODEL_MAPPING_get ''gpt-4o'' = Some (Val (JStr ''deepseek-ai/deepseek-v3.1''))"
    by code_simp
  have m: "\<not> messages_invalid (Some (JArr (x # xs)))"
    by (simp add: messages_invalid_def)
  have s: "get_field (set_field ''model'' (JStr ''gpt-4o'') body) ''model'' = Some (JStr ''gpt-4o'')"
    using assms(2) by (rule get_field_set_field_same)
  show ?thesis
    using assms t m s
    by (simp add: chat_completions_def getOptimalModel_def get_field_set_field_other)
qed

theorem missing_model_is_gpt4o_witness:
  "get_field (JObj [(''messages'', user_hi)]) ''model'' = None \<and>
   (\<exists>req. req_model req = Val (JStr ''deepseek-ai/deepseek-v3.1'') \<and>
     (\<forall>vm. chat_completions sample_runtime server_config vm (JObj [(''messages'', user_hi)]) =
             (Forward req, vm) \<and>
           chat_completions sample_runtime server_config vm
             (JObj [(''messages'', user_hi), (''model'', JStr ''gpt-4o'')]) = (Forward req, vm)))"
proof -
  have a: "get_field (JObj [(''messages'', user_hi)]) ''model'' = None" by simp
  have b: "get_field (JObj [(''messages'', user_hi)]) ''messages'' =
      Some (JArr (JObj [(''role'', JStr ''user''), (''content'', JStr ''hi'')] # []))"
    by (simp add: user_hi_def)
  from missing_model_is_gpt4o[OF a b, of sample_runtime server_config] a
  show ?thesis by simp
qed


section \<open>Facts about line assembly\<close>

lemma split_lines_no_newline:
  "CHR ''\<newline>'' \<notin> set s \<Longrightarrow> split_lines s = [s]"
  by (induction s) auto

lemma split_lines_line:
  "CHR ''\<newline>'' \<notin> set l \<Longrightarrow> split_lines (l @ CHR ''\<newline>'' # rest) = l # split_lines rest"
  by (induction l) auto

lemma split_lines_nonempty: "split_lines s \<noteq> []"
  by (induction s) (auto split: list.splits)

text \<open>
  A chunk whose text has no newline is only buffered; a chunk whose text completes one
  line is handled by \<open>process_line\<close> on the buffered text and the chunk's.
\<close>

lemma on_data_partial:
  assumes "CHR ''\<newline>'' \<notin> set (buffer st)" "CHR ''\<newline>'' \<notin> set (Buffer_toString rt chunk)"
  shows "on_data rt cfg st chunk =
           ([], \<lparr>buffer = buffer st @ Buffer_toString rt chunk,
                 reasoningStarted = reasoningStarted st\<rparr>)"
  using assms by (simp add: on_data_def split_lines_no_newline)

lemma on_data_line:
  assumes "CHR ''\<newline>'' \<notin> set (buffer st)" "CHR ''\<newline>'' \<notin> set text"
    and "Buffer_toString rt chunk = text @ ''\<newline>''"
  shows "on_data rt cfg st chunk =
           (fst (process_line rt cfg (reasoningStarted st) (buffer st @ text)),
            \<lparr>buffer = [],
             reasoningStarted = snd (process_line rt cfg (reasoningStarted st) (buffer st @ text))\<rparr>)"
proof -
  have "split_lines (buffer st @ text @ ''\<newline>'') = [buffer st @ text, []]"
    using assms(1,2) split_lines_line[of "buffer st @ text" "[]"] by simp
  then show ?thesis
    by (simp add: on_data_def assms(3) split_beta)
qed

section \<open>Facts about the streaming path\<close>

lemma get_field_map_field:
  "get_field (map_field k f v) k' =
     (if k' = k then map_option f (get_field v k) else get_field v k')"
  by (cases v) (auto simp: map_of_map_entry split: option.splits)

lemma opt_index0_map_index0:
  "(\<And>s. g (JStr s) = JStr s) \<Longrightarrow>
   opt_index0 (map_option (map_index0 g) v) = map_option g (opt_index0 v)"
  by (cases "(v)" rule: opt_index0.cases) (auto simp: map_of_map_entry split: option.splits)

text \<open>Reading the first delta after a change made through it.\<close>

lemma first_delta_update:
  "first_delta (update_first_delta f data) = map_option f (first_delta data)"
proof -
  have "opt_field (map_option (map_field ''delta'' f) c) ''delta'' =
        map_option f (opt_field c ''delta'')" for c
    by (cases c) (simp_all add: get_field_map_field)
  moreover have "opt_index0 (map_option (map_index0 (map_field ''delta'' f)) v) =
        map_option (map_field ''delta'' f) (opt_index0 v)" for v
    by (rule opt_index0_map_index0) simp
  ultimately show ?thesis
    by (simp add: first_delta_def update_first_delta_def get_field_map_field)
qed

lemma get_field_delete_field: "get_field (delete_field k v) k = None"
  by (cases v) (simp_all add: delete_conv')

lemma get_field_delete_field_other:
  "k' \<noteq> k \<Longrightarrow> get_field (delete_field k v) k' = get_field v k'"
  by (cases v) (simp_all add: delete_conv')

lemma falsy_no_field: "\<not> truthy d \<Longrightarrow> get_field d k = None"
  by (cases d) simp_all

lemma get_field_SomeD: "get_field d k = Some v \<Longrightarrow> truthy d \<and> (\<exists>kvs. d = JObj kvs)"
  by (cases d) simp_all

lemma content_after_update:
  assumes "first_delta data = Some (JObj kvs)"
  shows "opt_field (first_delta (update_first_delta
           (\<lambda>d. delete_field ''reasoning_content'' (set_field ''content'' v d)) data)) ''content''
         = Some v"
  using assms
  by (simp add: first_delta_update get_field_delete_field_other update_conv' delete_conv')

text \<open>A sum that does not throw is a string, empty only when both parts are.\<close>

lemma js_concat_Inr:
  "js_concat ns a b = Inr v \<Longrightarrow>
     \<exists>s t. to_str ns a = Inr s \<and> to_str ns b = Inr t \<and> v = JStr (s @ t)"
  by (auto simp: js_concat_def split: sum.splits)

lemma js_concat_strings [simp]: "js_concat ns (JStr s) (JStr t) = Inr (JStr (s @ t))"
  by (simp add: js_concat_def)

text \<open>A non-empty reasoning fragment always makes \<^verbatim>\<open>combinedContent\<close> non-empty.\<close>

lemma merge_fragments_truthy:
  assumes "truthy r" "merge_fragments ns st (Some r) c = (Inr combined, st')"
  shows "truthy combined"
proof -
  obtain c1 s1 where m1: "merge_reasoning ns st (Some r) = (Inr c1, s1)"
    and m2: "merge_content ns s1 c1 c = (Inr combined, st')"
    using assms(2) by (auto simp: merge_fragments_def split: prod.splits sum.splits)
  from m1 assms(1) have t1: "truthy c1" and s1: "s1"
    by (auto simp: merge_reasoning_def split: if_splits sum.splits dest!: js_concat_Inr)
  from m2 t1 s1 show ?thesis
    by (auto simp: merge_content_def split: option.splits if_splits sum.splits
        dest!: js_concat_Inr)
qed

text \<open>
  In every event the handler re-serialises, the delta of the first choice carries no
  non-empty \<^verbatim>\<open>reasoning_content\<close>, and none at all in pass-through mode.
\<close>

lemma handle_event_reasoning:
  assumes "handle_event rt cfg st data = (Inr out, st')"
  shows "\<not> truthy_opt (opt_field (first_delta out) ''reasoning_content'') \<and>
         (\<not> SHOW_REASONING cfg \<longrightarrow> opt_field (first_delta out) ''reasoning_content'' = None)"
proof (cases "first_delta data")
  case None
  then show ?thesis using assms by (auto simp: handle_event_def)
next
  case (Some delta)
  show ?thesis
  proof (cases "truthy delta")
    case False
    then show ?thesis using assms Some by (auto simp: handle_event_def falsy_no_field)
  next
    case True
    show ?thesis
    proof (cases "SHOW_REASONING cfg")
      case False
      then show ?thesis using assms Some True
        by (auto simp: handle_event_def first_delta_update get_field_delete_field)
    next
      case mrg: True
      from assms Some True mrg obtain combined where
        m: "merge_fragments (Number_toString rt) st
          (get_field delta ''reasoning_content'') (get_field delta ''content'') = (Inr combined, st')"
        by (auto simp: handle_event_def split: prod.splits sum.splits if_splits)
      show ?thesis
      proof (cases "truthy combined")
        case True
        then show ?thesis using assms Some \<open>truthy delta\<close> mrg m
          by (auto simp: handle_event_def first_delta_update get_field_delete_field)
      next
        case False
        have "\<not> truthy_opt (get_field delta ''reasoning_content'')"
        proof (cases "get_field delta ''reasoning_content''")
          case None
          then show ?thesis by simp
        next
          case (Some r)
          show ?thesis
          proof
            assume "truthy_opt (get_field delta ''reasoning_content'')"
            then have "truthy r" using Some by simp
            from merge_fragments_truthy[OF this] m Some
            show False using False by simp
          qed
        qed
        then show ?thesis using assms Some \<open>truthy delta\<close> mrg m False
          by (auto simp: handle_event_def)
      qed
    qed
  qed
qed

lemma process_line_reasoning:
  assumes "w \<in> set (fst (process_line rt cfg st line))"
  shows "\<not> truthy_opt (written_reasoning w) \<and>
         (\<not> SHOW_REASONING cfg \<longrightarrow> written_reasoning w = None)"
proof (cases w)
  case (WriteText t)
  then show ?thesis by simp
next
  case (WriteData out)
  with assms obtain data st' where "handle_event rt cfg st data = (Inr out, st')"
    by (auto simp: process_line_def split: if_splits option.splits prod.splits sum.splits)
  from handle_event_reasoning[OF this] WriteData show ?thesis by simp
qed

lemma process_lines_written:
  "w \<in> set (fst (process_lines rt cfg st lines)) \<Longrightarrow>
   \<exists>st' line. w \<in> set (fst (process_line rt cfg st' line))"
proof (induction lines arbitrary: st)
  case Nil
  then show ?case by simp
next
  case (Cons l ls)
  then show ?case by (auto simp: split_beta)
qed

lemma first_delta_reasoning_removed:
  assumes "w \<in> set (fst (process_lines rt cfg started lines))"
  shows "\<not> truthy_opt (written_reasoning w) \<and>
         (\<not> SHOW_REASONING cfg \<longrightarrow> written_reasoning w = None)"
proof -
  from process_lines_written[OF assms] obtain st' line
    where "w \<in> set (fst (process_line rt cfg st' line))" by blast
  then show ?thesis by (rule process_line_reasoning)
qed

text \<open>
  Pass-through mode: the content written for an object delta is the delta's own
  visible content, or the empty string when it has none; \<^verbatim>\<open>reasoningStarted\<close> is not
  touched.
\<close>

lemma passthrough_content:
  assumes "\<not> SHOW_REASONING cfg" "startsWith line ''data: ''" "\<not> str_includes line ''[DONE]''"
    and "JSON_parse rt (drop 6 line) = Some data" "first_delta data = Some (JObj kvs)"
  shows "\<exists>out. process_line rt cfg st line = ([WriteData out], st) \<and>
           written_content (WriteData out) = Some (js_or (map_of kvs ''content'') (JStr []))"
proof -
  from assms(5) have "data \<noteq> JNull" by (auto simp: first_delta_def)
  then show ?thesis
    using assms content_after_update[of data kvs]
    by (simp add: process_line_def handle_event_def)
qed

text \<open>
  C2. The handler rewrites \<^verbatim>\<open>data.choices[0].delta\<close> only. In pass-through mode, the
  repository's setting, the event written for a line with two choices still carries
  the \<^verbatim>\<open>reasoning_content\<close> of the second choice as a raw field (the non-streaming path
  maps over every choice). In merge mode the field is deleted only when the combined
  content is non-empty, so a delta whose fragments are both empty is written with its
  \<^verbatim>\<open>reasoning_content\<close> field (the pass-through branch deletes it unconditionally).
\<close>

theorem reasoning_field_reaches_caller:
  "JSON_parse sample_runtime (drop 6 line_two_choices) \<noteq> None \<and>
   fst (process_line sample_runtime server_config False line_two_choices) =
     [WriteData (JObj [(''choices'', JArr
        [JObj [(''index'', JNum 0), (''delta'', JObj [(''content'', JStr ''x'')])],
         JObj [(''index'', JNum 1),
               (''delta'', JObj [(''content'', JStr ''y''), (''reasoning_content'', JStr ''r1'')])]])])] \<and>
   JSON_parse sample_runtime (drop 6 line_empty_fragments) \<noteq> None \<and>
   fst (process_line sample_runtime merge_config False line_empty_fragments) =
     [WriteData (JObj [(''choices'', JArr
        [JObj [(''index'', JNum 0),
               (''delta'', JObj [(''role'', JStr ''assistant''), (''content'', JStr []),
                                 (''reasoning_content'', JStr [])])]])])] \<and>
   map choice_reasonings (fst (process_line sample_runtime server_config False line_two_choices)) =
     [[None, Some (JStr ''r1'')]] \<and>
   map choice_reasonings (fst (process_line sample_runtime merge_config False line_empty_fragments)) =
     [[Some (JStr [])]]"
  by code_simp

text \<open>
  C5. A \<^verbatim>\<open>data: \<close> line whose payload \<^verbatim>\<open>JSON.parse\<close> rejects is written as it is, followed
  by one newline (two when the line contains \<^verbatim>\<open>[DONE]\<close>); \<^verbatim>\<open>reasoningStarted\<close> does not
  change, and the lines after it are processed as if it had not been there.
\<close>

theorem malformed_line_forwarded:
  assumes "startsWith line ''data: ''" and "JSON_parse rt (drop 6 line) = None"
  shows "process_line rt cfg started line =
           ([WriteText (line @ (if str_includes line ''[DONE]''
                                then ''\<newline>\<newline>'' else ''\<newline>''))], started) \<and>
         process_lines rt cfg started (line # rest) =
           (WriteText (line @ (if str_includes line ''[DONE]''
                               then ''\<newline>\<newline>'' else ''\<newline>''))
              # fst (process_lines rt cfg started rest),
            snd (process_lines rt cfg started rest))"
  using assms by (simp add: process_line_def split_beta)

text \<open>
  In merge mode with reasoning open, a cut-off line is passed on and the visible
  fragment that follows still closes the reasoning.
\<close>

theorem malformed_line_forwarded_witness:
  "startsWith line_cut_off ''data: '' \<and>
   JSON_parse sample_runtime (drop 6 line_cut_off) = None \<and>
   process_lines sample_runtime merge_config True [line_cut_off, line_content_c] =
     ([WriteText (line_cut_off @ ''\<newline>''),
       WriteData (one_choice [(''content'', JStr ''</think>\<newline>\<newline>c'')])], False)"
proof -
  have a: "startsWith line_cut_off ''data: ''" by code_simp
  have b: "JSON_parse sample_runtime (drop 6 line_cut_off) = None" by code_simp
  have c: "\<not> str_includes line_cut_off ''[DONE]''" by code_simp
  have d: "process_lines sample_runtime merge_config True [line_content_c] =
     ([WriteData (one_choice [(''content'', JStr ''</think>\<newline>\<newline>c'')])], False)"
    by code_simp
  from malformed_line_forwarded[OF a b, of merge_config True "[line_content_c]"]
  show ?thesis using a b by (simp only: c d if_False fst_conv snd_conv simp_thms)
qed

text \<open>
  C9. A \<^verbatim>\<open>data: \<close> line that contains \<^verbatim>\<open>[DONE]\<close> anywhere is written as it is, followed
  by an empty line: its payload is not parsed, the event is not transcoded and
  \<^verbatim>\<open>reasoningStarted\<close> does not change.
\<close>

theorem done_substring_forwarded:
  assumes "startsWith line ''data: ''" and "str_includes line ''[DONE]''"
  shows "process_line rt cfg started line = ([WriteText (line @ ''\<newline>\<newline>'')], started)"
  using assms by (simp add: process_line_def)

text \<open>
  A valid event whose visible content is the text \<^verbatim>\<open>[DONE]\<close>: the caller gets the line
  with its \<^verbatim>\<open>reasoning_content\<close> in it.
\<close>

theorem done_substring_forwarded_witness:
  \<open>startsWith line_done_in_content ''data: '' \<and>
   str_includes line_done_in_content ''[DONE]'' \<and>
   JSON_parse sample_runtime (drop 6 line_done_in_content) =
     Some (one_choice [(''content'', JStr ''[DONE]''), (''reasoning_content'', JStr ''r'')]) \<and>
   process_line sample_runtime server_config False line_done_in_content =
     ([WriteText (line_done_in_content @ ''\<newline>\<newline>'')], False) \<and>
   str_includes (line_done_in_content @ ''\<newline>\<newline>'') ''"reasoning_content":"r"''\<close>
proof -
  have a: "startsWith line_done_in_content ''data: ''" by code_simp
  have b: "str_includes line_done_in_content ''[DONE]''" by code_simp
  have c: "JSON_parse sample_runtime (drop 6 line_done_in_content) =
     Some (one_choice [(''content'', JStr ''[DONE]''), (''reasoning_content'', JStr ''r'')])"
    by code_simp
  have d: \<open>str_includes (line_done_in_content @ ''\<newline>\<newline>'') ''"reasoning_content":"r"''\<close>
    by code_simp
  from done_substring_forwarded[OF a b, of sample_runtime server_config False]
  show ?thesis using a b c d by (simp only: simp_thms)
qed

section \<open>Facts about merge mode\<close>

text \<open>On string fragments the merge of the code is the state machine of the specification.\<close>

lemma fragment_cases:
  assumes "fragment v = Some s"
  obtains "s = []" "\<not> truthy_opt v" | "s \<noteq> []" "v = Some (JStr s)"
  using assms by (cases "(v)" rule: fragment.cases) (auto split: if_splits)

lemma merge_reasoning_fragment:
  assumes "fragment reasoning = Some r"
  shows "merge_reasoning ns opened reasoning =
           (Inr (JStr (fst (spec_reasoning opened r))), snd (spec_reasoning opened r))"
  using assms
  by (rule fragment_cases)
     (auto simp: merge_reasoning_def spec_reasoning_def split: option.splits)

lemma merge_content_fragment:
  assumes "fragment content = Some c"
  shows "merge_content ns opened (JStr t) content =
           (Inr (JStr (t @ fst (spec_visible opened c))), snd (spec_visible opened c))"
  using assms
  by (rule fragment_cases)
     (auto simp: merge_content_def spec_visible_def split: option.splits)

lemma merge_fragments_spec:
  assumes "fragment reasoning = Some r" "fragment content = Some c"
  shows "merge_fragments ns opened reasoning content =
           (Inr (JStr (fst (spec_reasoning opened r)
                       @ fst (spec_visible (snd (spec_reasoning opened r)) c))),
            snd (spec_visible (snd (spec_reasoning opened r)) c))"
  by (simp add: merge_fragments_def merge_reasoning_fragment[OF assms(1)]
      merge_content_fragment[OF assms(2)])

lemma spec_empty_fragments:
  "fst (spec_reasoning opened []) @ fst (spec_visible (snd (spec_reasoning opened [])) []) = []"
  "snd (spec_visible (snd (spec_reasoning opened [])) []) = opened"
  by (simp_all add: spec_reasoning_def spec_visible_def)

lemma spec_nonempty_fragment:
  assumes "fst (spec_reasoning opened r) @ fst (spec_visible (snd (spec_reasoning opened r)) c) \<noteq> []"
  shows "r \<noteq> [] \<or> c \<noteq> []"
  using assms by (auto simp: spec_reasoning_def spec_visible_def split: if_splits)

lemma emitted_text_unchanged:
  assumes "fragment (opt_field (first_delta data) ''content'') = Some []"
  shows "emitted_text (WriteData data) = []"
  using assms
  by (cases "(opt_field (first_delta data) ''content'')" rule: fragment.cases)
     (auto simp: emitted_text_def split: if_splits)

text \<open>One line of the stream against one step of the specification's machine.\<close>

lemma process_line_spec:
  assumes "SHOW_REASONING cfg" "classify_line rt line = Some k"
  shows "map emitted_text (fst (process_line rt cfg opened line)) = fst (spec_line opened k) \<and>
         snd (process_line rt cfg opened line) = snd (spec_line opened k)"
proof (cases "startsWith line ''data: '' \<and> \<not> str_includes line ''[DONE]''")
  case False
  then show ?thesis using assms(2)
    by (auto simp: classify_line_def process_line_def emitted_text_def split: if_splits)
next
  case dl: True
  show ?thesis
  proof (cases "JSON_parse rt (drop 6 line)")
    case None
    then show ?thesis using assms(2) dl
      by (auto simp: classify_line_def process_line_def emitted_text_def)
  next
    case (Some data)
    show ?thesis
    proof (cases "data = JNull")
      case True
      then show ?thesis using assms(2) dl Some
        by (auto simp: classify_line_def process_line_def emitted_text_def)
    next
      case nn: False
      show ?thesis
      proof (cases "first_delta data")
        case None
        then show ?thesis using assms(2) dl Some nn
          by (auto simp: classify_line_def process_line_def handle_event_def emitted_text_def
              spec_reasoning_def spec_visible_def)
      next
        case fd: (Some delta)
        show ?thesis
        proof (cases "truthy delta")
          case False
          then show ?thesis using assms(2) dl Some nn fd
            by (auto simp: classify_line_def process_line_def handle_event_def emitted_text_def
                spec_reasoning_def spec_visible_def falsy_no_field)
        next
          case td: True
          from assms(2) dl Some nn fd td obtain r c where
            k: "k = Fragments r c"
            and fr: "fragment (get_field delta ''reasoning_content'') = Some r"
            and fc: "fragment (get_field delta ''content'') = Some c"
            by (auto simp: classify_line_def split: option.splits)
          let ?t = "fst (spec_reasoning opened r)
                    @ fst (spec_visible (snd (spec_reasoning opened r)) c)"
          let ?o = "snd (spec_visible (snd (spec_reasoning opened r)) c)"
          note m = merge_fragments_spec[OF fr fc, of "Number_toString rt" opened]
          show ?thesis
          proof (cases "?t = []")
            case True
            then have rc: "r = []" "c = []"
              by (auto simp: spec_reasoning_def spec_visible_def split: if_splits)
            have "emitted_text (WriteData data) = []"
              using fc fd rc by (intro emitted_text_unchanged) simp
            then show ?thesis
              using assms(1) dl Some nn fd td m True k rc
              by (simp add: process_line_def handle_event_def split_beta spec_empty_fragments)
          next
            case False
            from spec_nonempty_fragment[OF False] fr fc obtain v where
              "get_field delta ''reasoning_content'' = Some v \<or> get_field delta ''content'' = Some v"
              by (cases "get_field delta ''reasoning_content''";
                  cases "get_field delta ''content''") auto
            then obtain kvs where obj: "delta = JObj kvs"
              using get_field_SomeD by blast
            show ?thesis
              using assms(1) dl Some nn fd td m False k obj
                content_after_update[of data kvs "JStr ?t"]
              by (simp add: process_line_def handle_event_def split_beta emitted_text_def)
          qed
        qed
      qed
    qed
  qed
qed

text \<open>A whole stream against the specification's machine, by induction on its lines.\<close>

lemma process_lines_spec:
  assumes "SHOW_REASONING cfg"
  shows "map (classify_line rt) lines = map Some kinds \<Longrightarrow>
         map emitted_text (fst (process_lines rt cfg opened lines)) = fst (spec_stream opened kinds)
         \<and> snd (process_lines rt cfg opened lines) = snd (spec_stream opened kinds)"
proof (induction lines arbitrary: kinds opened)
  case Nil
  then show ?case by simp
next
  case (Cons line lines)
  then obtain k ks where ks: "kinds = k # ks" "classify_line rt line = Some k"
    "map (classify_line rt) lines = map Some ks"
    by (cases kinds) auto
  from process_line_spec[OF assms ks(2), of opened] Cons.IH[OF ks(3)]
  show ?case by (simp add: ks(1) split_beta)
qed



text \<open>
  On a stream with one run, reasoning fragments first and visible fragments after
  them, each marker is written once, as the claim words it.
\<close>

lemma spec_stream_reasoning_run:
  "[] \<notin> set rs \<Longrightarrow>
   spec_stream opened (map (\<lambda>r. Fragments r []) rs @ ks) =
     ((if opened then rs else mark_first ''<think>\<newline>'' rs)
        @ fst (spec_stream (opened \<or> rs \<noteq> []) ks),
      snd (spec_stream (opened \<or> rs \<noteq> []) ks))"
  by (induction rs arbitrary: opened)
     (auto simp: spec_reasoning_def spec_visible_def split_beta)

lemma spec_stream_visible_run:
  "[] \<notin> set cs \<Longrightarrow>
   spec_stream opened (map (\<lambda>c. Fragments [] c) cs) =
     ((if opened then mark_first ''</think>\<newline>\<newline>'' cs else cs), opened \<and> cs = [])"
  by (induction cs arbitrary: opened)
     (auto simp: spec_reasoning_def spec_visible_def split_beta)

lemma spec_stream_single_run:
  assumes "[] \<notin> set rs" "[] \<notin> set cs"
  shows "spec_stream False (map (\<lambda>r. Fragments r []) rs @ map (\<lambda>c. Fragments [] c) cs) =
     (mark_first ''<think>\<newline>'' rs
        @ (if rs = [] then cs else mark_first ''</think>\<newline>\<newline>'' cs),
      rs \<noteq> [] \<and> cs = [])"
  using assms
  by (simp add: spec_stream_reasoning_run spec_stream_visible_run)

lemma merge_markers_single_run:
  assumes "SHOW_REASONING cfg"
    and "map (classify_line rt) rlines = map (\<lambda>r. Some (Fragments r [])) rs"
    and "map (classify_line rt) clines = map (\<lambda>c. Some (Fragments [] c)) cs"
    and "[] \<notin> set rs" "[] \<notin> set cs"
  shows "map emitted_text (fst (process_lines rt cfg False (rlines @ clines))) =
           mark_first ''<think>\<newline>'' rs
             @ (if rs = [] then cs else mark_first ''</think>\<newline>\<newline>'' cs)
         \<and> snd (process_lines rt cfg False (rlines @ clines)) = (rs \<noteq> [] \<and> cs = [])"
proof -
  have "map (classify_line rt) (rlines @ clines) =
        map Some (map (\<lambda>r. Fragments r []) rs @ map (\<lambda>c. Fragments [] c) cs)"
    using assms(2,3) by (simp add: comp_def)
  from process_lines_spec[OF assms(1) this, of False]
  show ?thesis
    by (simp add: spec_stream_single_run[OF assms(4,5)])
qed


text \<open>
  A conversion that throws after the opening marker was put before the reasoning
  leaves reasoning open: the line is forwarded as text by the \<^verbatim>\<open>catch\<close> block, and the
  flag keeps the value line 196 gave it.
\<close>

lemma merge_throw_keeps_flag:
  assumes "r \<noteq> []" "truthy c" "to_str ns c = Inl e"
  shows "merge_fragments ns False (Some (JStr r)) (Some c) = (Inl e, True)"
  using assms
  by (simp add: merge_fragments_def merge_reasoning_def merge_content_def js_concat_def)

section \<open>Facts about the non-streaming path\<close>

text \<open>
  In merge mode, for a choice whose message has a non-empty \<^verbatim>\<open>reasoning_content\<close>, the
  assembled content is the opening marker, the reasoning, a newline, the closing marker
  and the visible content (empty when the message has none), put together once; when
  the reasoning or the content cannot be converted to a string, the callback throws.
\<close>

lemma assemble_reasoning_prefix:
  assumes "SHOW_REASONING cfg"
    and "get_field choice ''message'' = Some message"
    and "get_field message ''reasoning_content'' = Some reasoning"
    and "truthy reasoning"
    and "to_str (Number_toString rt) reasoning = Inr r"
    and "to_str (Number_toString rt) (js_or (get_field message ''content'') (JStr [])) = Inr c"
  shows "assembled_content (assemble_choice rt cfg choice) =
     Some (JStr (''<think>\<newline>'' @ r @ ''\<newline>'' @ ''</think>\<newline>\<newline>'' @ c))"
proof -
  from get_field_SomeD[OF assms(2)] have ch: "choice \<noteq> JNull" by auto
  from get_field_SomeD[OF assms(3)] have m: "message \<noteq> JNull" by auto
  have "full_content rt cfg (Some message) =
     Inr (JStr (''<think>\<newline>'' @ r @ ''\<newline>'' @ ''</think>\<newline>\<newline>'' @ c))"
    using assms by (simp add: full_content_def js_concat_def)
  then show ?thesis
    using assms(2) ch m
    by (cases "get_field choice ''index''"; cases "get_field message ''role''")
       (simp_all add: assemble_choice_def)
qed

lemma assemble_reasoning_throws:
  assumes "SHOW_REASONING cfg"
    and "get_field choice ''message'' = Some message"
    and "get_field message ''reasoning_content'' = Some reasoning"
    and "truthy reasoning"
    and "to_str (Number_toString rt) reasoning = Inl e"
  shows "assemble_choice rt cfg choice = Inl e"
proof -
  from get_field_SomeD[OF assms(2)] have ch: "choice \<noteq> JNull" by auto
  have "full_content rt cfg (Some message) = Inl e"
    using assms by (simp add: full_content_def js_concat_def)
  then show ?thesis
    using assms(2) ch by (simp add: assemble_choice_def)
qed

text \<open>
  C8. In merge mode, for a message with reasoning \<^verbatim>\<open>r\<close> and content \<^verbatim>\<open>c\<close>, the assembled
  content has a newline between the reasoning and the closing marker: it is not the
  opening marker, \<^verbatim>\<open>r\<close>, the closing marker and \<^verbatim>\<open>c\<close>, which is what the streaming merge
  produces for the same two fragments.
\<close>

theorem assemble_differs_from_streaming:
  "assembled_content (assemble_choice sample_runtime merge_config sample_choice) =
     Some (JStr ''<think>\<newline>r\<newline></think>\<newline>\<newline>c'') \<and>
   assembled_content (assemble_choice sample_runtime merge_config sample_choice) \<noteq>
     Some (JStr (''<think>\<newline>'' @ ''r'' @ ''</think>\<newline>\<newline>'' @ ''c'')) \<and>
   fst (merge_fragments (Number_toString sample_runtime) False
          (Some (JStr ''r'')) (Some (JStr ''c''))) =
     Inr (JStr (''<think>\<newline>'' @ ''r'' @ ''</think>\<newline>\<newline>'' @ ''c''))"
  by code_simp

end
